theory Spec2Isabelle
  imports Main "HOL-Library.AList"
begin

section \<open>The custom command registry of threepseat (cogs/commands.py)\<close>

text \<open>
  The cog \<^verbatim>\<open>Commands\<close> keeps two tables: the persisted store
  \<^verbatim>\<open>self.db\<close> (a \<^verbatim>\<open>GuildDatabase\<close>, text per guild and command name) and the
  command table of the bot (one handler per command name, shared by all guilds).
  Python dictionaries are association lists here, in insertion order; mutation is
  explicit state passing; messages the bot sends are collected in a log.
\<close>

subsection \<open>Data\<close>

type_synonym guild = int
type_synonym channel = int

text \<open>
  A \<^verbatim>\<open>discord.Member\<close>: the fields the cog reads. \<open>guild_administrator\<close> is
  what \<^verbatim>\<open>is_admin(member)\<close> looks at.
\<close>

record member =
  member_id :: int
  mention :: string
  guild_administrator :: bool

text \<open>
  A \<^verbatim>\<open>commands.Context\<close>: \<^verbatim>\<open>ctx.message.author\<close>, \<^verbatim>\<open>ctx.guild\<close>,
  \<^verbatim>\<open>ctx.channel\<close>.
\<close>

record ctx =
  author :: member
  guild :: guild
  channel :: channel

text \<open>
  The \<^verbatim>\<open>commands.Command\<close> built by \<^verbatim>\<open>make_command(name, text)\<close>: its callback
  is the closure \<^verbatim>\<open>_command\<close>, whose captured variables are \<^verbatim>\<open>name\<close> (also the
  name of the command in the dispatcher) and \<^verbatim>\<open>text\<close>.
\<close>

record command =
  cmd_name :: string
  cmd_text :: string

text \<open>
  The \<^verbatim>\<open>Bot\<close>: its command prefix, its command table (\<^verbatim>\<open>all_commands\<close>), its
  configured administrators, and the messages it has sent, oldest first.
\<close>

record bot =
  command_prefix :: string
  all_commands :: "command list"
  bot_admins :: "int list"
  sent :: "(channel \<times> string) list"

type_synonym guild_database = "(guild \<times> (string \<times> string) list) list"

record cog =
  cog_bot :: bot
  guild_admin_permission :: bool
  bot_admin_permission :: bool
  everyone_permission :: bool
  db :: guild_database

datatype error = CommandNotFound string

subsection \<open>The collaborators: GuildDatabase, the bot's dispatcher, is_admin\<close>

text \<open>
  Modelled from the spec: \<^verbatim>\<open>GuildDatabase\<close> of \<^verbatim>\<open>threepseat.utils\<close> is not part
  of the sources at hand. The spec describes it as a store
  \<^verbatim>\<open>{guild_id -> {command_name -> command_text}}\<close> with get, set (create or
  overwrite), clear and enumerate-all.
\<close>

definition db_tables :: "guild_database \<Rightarrow> (guild \<times> (string \<times> string) list) list" where
  "db_tables d = d"

definition db_table :: "guild_database \<Rightarrow> guild \<Rightarrow> (string \<times> string) list" where
  "db_table d g = (case map_of d g of None \<Rightarrow> [] | Some t \<Rightarrow> t)"

definition db_value :: "guild_database \<Rightarrow> guild \<Rightarrow> string \<Rightarrow> string option" where
  "db_value d g k = map_of (db_table d g) k"

definition db_set :: "guild_database \<Rightarrow> guild \<Rightarrow> string \<Rightarrow> string \<Rightarrow> guild_database" where
  "db_set d g k v = AList.update g (AList.update k v (db_table d g)) d"

definition db_clear :: "guild_database \<Rightarrow> guild \<Rightarrow> string \<Rightarrow> guild_database" where
  "db_clear d g k =
     (case map_of d g of
        None \<Rightarrow> d
      | Some t \<Rightarrow> AList.update g (AList.delete k t) d)"

text \<open>
  Modelled from the spec: \<^verbatim>\<open>Bot\<close> of \<^verbatim>\<open>threepseat.bot\<close> is not part of the
  sources at hand. The spec's dispatcher holds at most one handler per name:
  installing under a name that already has a handler installs nothing, and
  deregistering a name without a handler does nothing. \<^verbatim>\<open>message_guild\<close> sends
  the message to the channel.
\<close>

definition has_command :: "bot \<Rightarrow> string \<Rightarrow> bool" where
  "has_command b n = (n \<in> set (map cmd_name (all_commands b)))"

definition get_command :: "bot \<Rightarrow> string \<Rightarrow> command option" where
  "get_command b n = find (\<lambda>c. cmd_name c = n) (all_commands b)"

definition add_command :: "bot \<Rightarrow> command \<Rightarrow> bot" where
  "add_command b c =
     (if has_command b (cmd_name c) then b
      else b\<lparr>all_commands := all_commands b @ [c]\<rparr>)"

definition remove_command :: "bot \<Rightarrow> string \<Rightarrow> bot" where
  "remove_command b n = b\<lparr>all_commands := filter (\<lambda>c. cmd_name c \<noteq> n) (all_commands b)\<rparr>"

definition message_guild :: "bot \<Rightarrow> string \<Rightarrow> channel \<Rightarrow> bot" where
  "message_guild b msg ch = b\<lparr>sent := sent b @ [(ch, msg)]\<rparr>"

definition is_bot_admin :: "bot \<Rightarrow> member \<Rightarrow> bool" where
  "is_bot_admin b m = (member_id m \<in> set (bot_admins b))"

text \<open>
  Modelled from the spec: \<^verbatim>\<open>is_admin\<close> of \<^verbatim>\<open>threepseat.utils\<close> is not part of
  the sources at hand; the spec reads it as "actor holds guild-admin role".
\<close>

definition is_admin :: "member \<Rightarrow> bool" where
  "is_admin m = guild_administrator m"

subsection \<open>The cog\<close>

text \<open>\<^verbatim>\<open>_get_command\<close>, \<^verbatim>\<open>_remove_command\<close>, \<^verbatim>\<open>_set_command\<close>.\<close>

definition cog_get_command :: "cog \<Rightarrow> guild \<Rightarrow> string \<Rightarrow> string option" where
  "cog_get_command self g n = db_value (db self) g n"

definition cog_remove_command :: "cog \<Rightarrow> guild \<Rightarrow> string \<Rightarrow> cog" where
  "cog_remove_command self g n = self\<lparr>db := db_clear (db self) g n\<rparr>"

definition cog_set_command :: "cog \<Rightarrow> guild \<Rightarrow> string \<Rightarrow> string \<Rightarrow> cog" where
  "cog_set_command self g n t = self\<lparr>db := db_set (db self) g n t\<rparr>"

definition make_command :: "string \<Rightarrow> string \<Rightarrow> command" where
  "make_command n t = \<lparr>cmd_name = n, cmd_text = t\<rparr>"

text \<open>The body of the closure \<^verbatim>\<open>_command(_ctx)\<close> of a command.\<close>

definition run_command :: "cog \<Rightarrow> command \<Rightarrow> ctx \<Rightarrow> cog" where
  "run_command self c ctx =
     (case cog_get_command self (guild ctx) (cmd_name c) of
        None \<Rightarrow>
          self\<lparr>cog_bot := message_guild (cog_bot self)
                  ''this command is not available in this guild'' (channel ctx)\<rparr>
      | Some t \<Rightarrow> self\<lparr>cog_bot := message_guild (cog_bot self) t (channel ctx)\<rparr>)"

text \<open>
  What the dispatcher does when a user types the command name \<open>n\<close>: it runs
  the handler registered under \<open>n\<close>, and fails when there is none.
\<close>

definition invoke :: "cog \<Rightarrow> ctx \<Rightarrow> string \<Rightarrow> error + cog" where
  "invoke self ctx n =
     (case get_command (cog_bot self) n of
        None \<Rightarrow> Inl (CommandNotFound n)
      | Some c \<Rightarrow> Inr (run_command self c ctx))"

definition has_permission :: "cog \<Rightarrow> member \<Rightarrow> bool" where
  "has_permission self m =
     (if everyone_permission self then True
      else if is_admin m \<or> is_bot_admin (cog_bot self) m then True
      else False)"

definition add :: "cog \<Rightarrow> ctx \<Rightarrow> string \<Rightarrow> string \<Rightarrow> cog" where
  "add self ctx n t =
     (if \<not> has_permission self (author ctx) then
        self\<lparr>cog_bot := message_guild (cog_bot self)
                (mention (author ctx) @ '', you do not have permission to add a command'')
                (channel ctx)\<rparr>
      else
        let s1 = cog_set_command self (guild ctx) n t;
            s2 = s1\<lparr>cog_bot := remove_command (cog_bot s1) n\<rparr>;
            s3 = s2\<lparr>cog_bot := add_command (cog_bot s2) (make_command n t)\<rparr>
        in s3\<lparr>cog_bot := message_guild (cog_bot s3)
                 (''added command '' @ command_prefix (cog_bot s3) @ n) (channel ctx)\<rparr>)"

definition remove :: "cog \<Rightarrow> ctx \<Rightarrow> string \<Rightarrow> cog" where
  "remove self ctx n =
     (if \<not> has_permission self (author ctx) then
        self\<lparr>cog_bot := message_guild (cog_bot self)
                (mention (author ctx) @ '', you do not have permission to remove a command'')
                (channel ctx)\<rparr>
      else
        let s1 = self\<lparr>cog_bot := remove_command (cog_bot self) n\<rparr>;
            s2 = cog_remove_command s1 (guild ctx) n
        in s2\<lparr>cog_bot := message_guild (cog_bot s2)
                 (''removed command '' @ command_prefix (cog_bot s2) @ n) (channel ctx)\<rparr>)"

text \<open>
  \<^verbatim>\<open>__init__\<close>: the two nested loops over \<^verbatim>\<open>tables.values()\<close> and
  \<^verbatim>\<open>table.items()\<close>, registering one command per stored pair.
\<close>

fun register_table :: "bot \<Rightarrow> (string \<times> string) list \<Rightarrow> bot" where
  "register_table b [] = b"
| "register_table b ((n, t) # rest) = register_table (add_command b (make_command n t)) rest"

fun register_tables :: "bot \<Rightarrow> (string \<times> string) list list \<Rightarrow> bot" where
  "register_tables b [] = b"
| "register_tables b (table # rest) = register_tables (register_table b table) rest"

definition init :: "bot \<Rightarrow> guild_database \<Rightarrow> bool \<Rightarrow> bool \<Rightarrow> bool \<Rightarrow> cog" where
  "init b commands_file ga ba ev =
     \<lparr>cog_bot = register_tables b (map snd (db_tables commands_file)),
      guild_admin_permission = ga,
      bot_admin_permission = ba,
      everyone_permission = ev,
      db = commands_file\<rparr>"

text \<open>The command names stored anywhere in the database.\<close>

definition stored_names :: "guild_database \<Rightarrow> string set" where
  "stored_names d = set (concat (map (\<lambda>gt. map fst (snd gt)) (db_tables d)))"

subsection \<open>A small instance\<close>

text \<open>
  A bot with no commands yet and one configured administrator; a store with
  two guilds that both define \<^verbatim>\<open>x\<close>; a guild administrator and a plain member.
\<close>

definition admin :: member where
  "admin = \<lparr>member_id = 1, mention = ''<@1>'', guild_administrator = True\<rparr>"

definition guest :: member where
  "guest = \<lparr>member_id = 2, mention = ''<@2>'', guild_administrator = False\<rparr>"

definition bot0 :: bot where
  "bot0 = \<lparr>command_prefix = ''?'', all_commands = [], bot_admins = [7], sent = []\<rparr>"

definition db0 :: guild_database where
  "db0 = [(10, [(''hi'', ''hello''), (''x'', ''a'')]), (20, [(''x'', ''b'')])]"

definition cog0 :: cog where
  "cog0 = init bot0 db0 True True False"

definition ctxA :: ctx where
  "ctxA = \<lparr>author = admin, guild = 10, channel = 100\<rparr>"

definition ctxB :: ctx where
  "ctxB = \<lparr>author = admin, guild = 20, channel = 200\<rparr>"

definition ctxG :: ctx where
  "ctxG = \<lparr>author = guest, guild = 10, channel = 100\<rparr>"

text \<open>
  The same bot when it already holds two commands before the cog is constructed:
  \<^verbatim>\<open>help\<close>, and a command named \<^verbatim>\<open>x\<close> like one of the stored ones.
\<close>

definition bot1 :: bot where
  "bot1 = bot0\<lparr>all_commands := [make_command ''help'' [], make_command ''x'' []]\<rparr>"

section \<open>Laws of the collaborators\<close>

lemmas instance_defs =
  admin_def guest_def bot0_def db0_def cog0_def ctxA_def ctxB_def ctxG_def init_def
  db_tables_def add_command_def has_command_def make_command_def

subsection \<open>The store\<close>

lemma db_value_set_same: "db_value (db_set d g k v) g k = Some v"
  by (simp add: db_value_def db_set_def db_table_def update_conv')

lemma db_value_set_other:
  "g' \<noteq> g \<or> k' \<noteq> k \<Longrightarrow> db_value (db_set d g k v) g' k' = db_value d g' k'"
  by (auto simp add: db_value_def db_set_def db_table_def update_conv')

lemma db_value_clear_same: "db_value (db_clear d g k) g k = None"
  by (simp add: db_value_def db_clear_def db_table_def update_conv' delete_conv'
      split: option.splits)

lemma db_value_clear_other:
  "g' \<noteq> g \<or> k' \<noteq> k \<Longrightarrow> db_value (db_clear d g k) g' k' = db_value d g' k'"
  by (auto simp add: db_value_def db_clear_def db_table_def update_conv' delete_conv'
      split: option.splits)

lemma db_clear_absent: "db_value d g k = None \<Longrightarrow> db_clear d g k = d"
  by (auto simp add: db_value_def db_clear_def db_table_def map_of_eq_None_iff update_triv
      split: option.splits)

lemma db_clear_keys: "map fst (db_clear d g k) = map fst d"
  by (auto simp add: db_clear_def update_keys map_of_eq_None_iff split: option.splits)

subsection \<open>The dispatcher\<close>

lemma find_snoc:
  "find P (xs @ [y]) = (case find P xs of None \<Rightarrow> (if P y then Some y else None) | Some x \<Rightarrow> Some x)"
  by (induction xs) auto

lemma find_filter_neq: "find (\<lambda>c. f c = n) (filter (\<lambda>c. f c \<noteq> n) xs) = None"
  by (induction xs) auto

lemma filter_eq_after_neq:
  "filter (\<lambda>c. f c = n) (filter (\<lambda>c. f c \<noteq> n) xs) = []"
  by (induction xs) auto

lemma filter_neq_absent: "n \<notin> f ` set xs \<Longrightarrow> filter (\<lambda>c. f c \<noteq> n) xs = xs"
  by (induction xs) auto

lemma get_command_reinstalled:
  "get_command (add_command (remove_command b n) (make_command n t)) n = Some (make_command n t)"
  by (auto simp add: get_command_def add_command_def remove_command_def has_command_def
      make_command_def find_snoc find_filter_neq)

lemma get_command_name: "get_command b n = Some c \<Longrightarrow> cmd_name c = n"
  by (auto simp add: get_command_def find_Some_iff)

lemma get_command_removed: "get_command (remove_command b n) n = None"
  by (simp add: get_command_def remove_command_def find_filter_neq)

lemma has_command_get: "has_command b n \<Longrightarrow> \<exists>c. get_command b n = Some c"
  by (cases "get_command b n") (auto simp add: has_command_def get_command_def find_None_iff)

lemma get_command_message_guild [simp]:
  "get_command (message_guild b msg ch) n = get_command b n"
  by (simp add: get_command_def message_guild_def)

lemma names_add_command:
  "cmd_name ` set (all_commands (add_command b c)) =
     insert (cmd_name c) (cmd_name ` set (all_commands b))"
  by (auto simp add: add_command_def has_command_def)

lemma distinct_add_command:
  "distinct (map cmd_name (all_commands b)) \<Longrightarrow>
   distinct (map cmd_name (all_commands (add_command b c)))"
  by (auto simp add: add_command_def has_command_def)

lemma names_register_table:
  "cmd_name ` set (all_commands (register_table b table)) =
     cmd_name ` set (all_commands b) \<union> fst ` set table"
proof (induction table arbitrary: b)
  case Nil
  show ?case by simp
next
  case (Cons p table)
  obtain n t where p: "p = (n, t)" by (cases p)
  show ?case
    by (simp add: p Cons.IH names_add_command make_command_def)
qed

lemma distinct_register_table:
  "distinct (map cmd_name (all_commands b)) \<Longrightarrow>
   distinct (map cmd_name (all_commands (register_table b table)))"
proof (induction table arbitrary: b)
  case Nil
  then show ?case by simp
next
  case (Cons p table)
  obtain n t where p: "p = (n, t)" by (cases p)
  show ?case
    unfolding p register_table.simps
    by (rule Cons.IH) (rule distinct_add_command, rule Cons.prems)
qed

lemma names_register_tables:
  "cmd_name ` set (all_commands (register_tables b tables)) =
     cmd_name ` set (all_commands b) \<union> (\<Union>table \<in> set tables. fst ` set table)"
proof (induction tables arbitrary: b)
  case Nil
  show ?case by simp
next
  case (Cons table tables)
  show ?case
    by (simp add: Cons.IH names_register_table Un_assoc)
qed

lemma distinct_register_tables:
  "distinct (map cmd_name (all_commands b)) \<Longrightarrow>
   distinct (map cmd_name (all_commands (register_tables b tables)))"
  by (induction tables arbitrary: b) (simp_all add: distinct_register_table)

text \<open>How many handlers a registration adds.\<close>

lemma card_step:
  assumes "finite R"
  shows "(if n \<in> N then 0 else 1) + card (R - insert n N) = card (insert n R - N)"
proof (cases "n \<in> N")
  case True
  then have e: "insert n R - N = R - insert n N" by blast
  show ?thesis
    by (simp only: e True if_True add_0)
next
  case False
  then have e: "insert n R - N = insert n (R - insert n N)" by blast
  have f: "finite (R - insert n N)"
    using assms by (rule finite_Diff)
  have m: "n \<notin> R - insert n N" by blast
  have c: "card (insert n (R - insert n N)) = Suc (card (R - insert n N))"
    using f m by (rule card_insert_disjoint)
  show ?thesis
    by (simp only: e c False if_False plus_1_eq_Suc)
qed


lemma length_add_command:
  "length (all_commands (add_command b c)) =
     length (all_commands b) + (if cmd_name c \<in> cmd_name ` set (all_commands b) then 0 else 1)"
proof (cases "has_command b (cmd_name c)")
  case True
  then show ?thesis by (simp add: add_command_def) (simp add: has_command_def)
next
  case False
  then show ?thesis by (simp add: add_command_def) (simp add: has_command_def)
qed

lemma length_register_table:
  "length (all_commands (register_table b table)) =
     length (all_commands b) + card (fst ` set table - cmd_name ` set (all_commands b))"
proof (induction table arbitrary: b)
  case Nil
  show ?case by simp
next
  case (Cons p table)
  obtain n t where p: "p = (n, t)" by (cases p)
  let ?b' = "add_command b (make_command n t)"
  let ?N = "cmd_name ` set (all_commands b)"
  let ?R = "fst ` set table"
  have nm: "cmd_name (make_command n t) = n" by (simp add: make_command_def)
  have 1: "length (all_commands (register_table b (p # table))) =
             length (all_commands (register_table ?b' table))"
    by (simp add: p)
  have 2: "length (all_commands (register_table ?b' table)) =
             length (all_commands ?b') + card (?R - cmd_name ` set (all_commands ?b'))"
    by (rule Cons.IH)
  have 3: "cmd_name ` set (all_commands ?b') = insert n ?N"
    by (simp only: names_add_command nm)
  have 4: "length (all_commands ?b') = length (all_commands b) + (if n \<in> ?N then 0 else 1)"
    by (simp only: length_add_command nm)
  have 5: "(if n \<in> ?N then 0 else 1) + card (?R - insert n ?N) = card (insert n ?R - ?N)"
    by (rule card_step) simp
  have 6: "fst ` set (p # table) = insert n ?R"
    by (simp add: p)
  have "length (all_commands (register_table b (p # table))) =
          length (all_commands b) + ((if n \<in> ?N then 0 else 1) + card (?R - insert n ?N))"
    by (simp only: 1 2 3 4 add.assoc)
  then show ?case
    by (simp only: 5 6)
qed

lemma card_union_step:
  assumes "finite A" and "finite B"
  shows "card (A - N) + card (B - (N \<union> A)) = card ((A \<union> B) - N)"
proof -
  have e: "(A \<union> B) - N = (A - N) \<union> (B - (N \<union> A))" by blast
  have d: "(A - N) \<inter> (B - (N \<union> A)) = {}" by blast
  have f1: "finite (A - N)" using assms(1) by (rule finite_Diff)
  have f2: "finite (B - (N \<union> A))" using assms(2) by (rule finite_Diff)
  show ?thesis
    by (simp only: e card_Un_disjoint [OF f1 f2 d])
qed

lemma length_register_tables:
  "length (all_commands (register_tables b tables)) =
     length (all_commands b)
       + card ((\<Union>table \<in> set tables. fst ` set table) - cmd_name ` set (all_commands b))"
proof (induction tables arbitrary: b)
  case Nil
  show ?case by simp
next
  case (Cons table tables)
  let ?b' = "register_table b table"
  let ?N = "cmd_name ` set (all_commands b)"
  let ?A = "fst ` set table"
  let ?B = "\<Union>table \<in> set tables. fst ` set table"
  have 1: "length (all_commands (register_tables b (table # tables))) =
             length (all_commands (register_tables ?b' tables))"
    by simp
  have 2: "length (all_commands (register_tables ?b' tables)) =
             length (all_commands ?b') + card (?B - cmd_name ` set (all_commands ?b'))"
    by (rule Cons.IH)
  have 3: "cmd_name ` set (all_commands ?b') = ?N \<union> ?A"
    by (rule names_register_table)
  have 4: "length (all_commands ?b') = length (all_commands b) + card (?A - ?N)"
    by (rule length_register_table)
  have 5: "card (?A - ?N) + card (?B - (?N \<union> ?A)) = card ((?A \<union> ?B) - ?N)"
    by (rule card_union_step) simp_all
  have 6: "(\<Union>table \<in> set (table # tables). fst ` set table) = ?A \<union> ?B"
    by simp
  have "length (all_commands (register_tables b (table # tables))) =
          length (all_commands b) + (card (?A - ?N) + card (?B - (?N \<union> ?A)))"
    by (simp only: 1 2 3 4 add.assoc)
  then show ?case
    by (simp only: 5 6)
qed

lemma bot_admins_add_command [simp]: "bot_admins (add_command b c) = bot_admins b"
  by (simp add: add_command_def)

lemma bot_admins_register_table [simp]: "bot_admins (register_table b table) = bot_admins b"
  by (induction b table rule: register_table.induct) simp_all

lemma bot_admins_register_tables [simp]: "bot_admins (register_tables b tables) = bot_admins b"
  by (induction tables arbitrary: b) simp_all

subsection \<open>The two branches of add and remove\<close>

lemma has_permission_cong:
  "everyone_permission s' = everyone_permission s \<Longrightarrow> bot_admins (cog_bot s') = bot_admins (cog_bot s)
   \<Longrightarrow> has_permission s' m = has_permission s m"
  by (simp add: has_permission_def is_bot_admin_def)

lemma add_permitted:
  "has_permission self (author ctx) \<Longrightarrow>
   add self ctx n t =
     self\<lparr>db := db_set (db self) (guild ctx) n t,
          cog_bot := message_guild
                   (add_command (remove_command (cog_bot self) n) (make_command n t))
                   (''added command '' @ command_prefix (cog_bot self) @ n) (channel ctx)\<rparr>"
  by (simp add: add_def Let_def cog_set_command_def add_command_def remove_command_def
      has_command_def)

lemma remove_permitted:
  "has_permission self (author ctx) \<Longrightarrow>
   remove self ctx n =
     self\<lparr>cog_bot := message_guild (remove_command (cog_bot self) n)
                   (''removed command '' @ command_prefix (cog_bot self) @ n) (channel ctx),
          db := db_clear (db self) (guild ctx) n\<rparr>"
  by (simp add: remove_def Let_def cog_remove_command_def remove_command_def)

lemma has_permission_add [simp]:
  "has_permission (add self ctx n t) m = has_permission self m"
  by (rule has_permission_cong)
     (simp_all add: add_def Let_def cog_set_command_def message_guild_def add_command_def
        remove_command_def)

lemma all_commands_add:
  "has_permission self (author ctx) \<Longrightarrow>
   all_commands (cog_bot (add self ctx n t)) =
     filter (\<lambda>c. cmd_name c \<noteq> n) (all_commands (cog_bot self)) @ [make_command n t]"
  by (auto simp add: add_permitted message_guild_def add_command_def remove_command_def
      has_command_def make_command_def)

section \<open>Properties\<close>

subsection \<open>Adding and invoking\<close>

text \<open>
  C1: when the actor has permission, \<^verbatim>\<open>add(actor, guild, name, text)\<close> followed by
  an invocation of \<^verbatim>\<open>name\<close> in the same guild succeeds and sends exactly
  \<^verbatim>\<open>text\<close> to the channel of the invocation, for every name and text (empty or
  not).
\<close>

theorem add_then_invoke:
  assumes "has_permission self (author ctx)" and "guild ctx' = guild ctx"
  shows "invoke (add self ctx n t) ctx' n =
           Inr ((add self ctx n t)\<lparr>cog_bot := message_guild (cog_bot (add self ctx n t)) t (channel ctx')\<rparr>)"
proof -
  let ?s = "add self ctx n t"
  have g: "get_command (cog_bot ?s) n = Some (make_command n t)"
    using assms(1) by (simp add: add_permitted get_command_reinstalled)
  have v: "cog_get_command ?s (guild ctx') n = Some t"
    using assms by (simp add: add_permitted cog_get_command_def db_value_set_same)
  have nm: "cmd_name (make_command n t) = n" by (simp add: make_command_def)
  show ?thesis
    by (simp add: invoke_def g run_command_def nm v)
qed

theorem add_then_invoke_witness:
  "has_permission cog0 (author ctxA) \<and> guild ctxA = guild ctxA
   \<and> invoke (add cog0 ctxA ''x'' ''t'') ctxA ''x'' =
       Inr ((add cog0 ctxA ''x'' ''t'')
              \<lparr>cog_bot := message_guild (cog_bot (add cog0 ctxA ''x'' ''t'')) ''t'' (channel ctxA)\<rparr>)"
proof -
  have h: "has_permission cog0 (author ctxA)"
    by (simp add: has_permission_def is_admin_def ctxA_def admin_def)
  show ?thesis
    using h add_then_invoke [OF h refl, of "''x''" "''t''"] by simp
qed

text \<open>
  C2: invoking a registered command name looks up (invoking guild, name) in the
  store; a stored text is sent to the channel of the invocation, and on a miss
  the fixed notice is sent. Either way the invocation returns normally.
\<close>

theorem invoke_registered:
  assumes "has_command (cog_bot self) n"
  shows "invoke self ctx n =
           Inr (self\<lparr>cog_bot := message_guild (cog_bot self)
                  (case db_value (db self) (guild ctx) n of
                     None \<Rightarrow> ''this command is not available in this guild''
                   | Some t \<Rightarrow> t)
                  (channel ctx)\<rparr>)"
proof -
  from assms obtain c where c: "get_command (cog_bot self) n = Some c"
    using has_command_get by blast
  then have nm: "cmd_name c = n" by (rule get_command_name)
  show ?thesis
    by (simp add: invoke_def c run_command_def nm cog_get_command_def split: option.split)
qed

theorem invoke_registered_witness:
  "has_command (cog_bot cog0) ''hi''
   \<and> invoke cog0 ctxA ''hi'' =
       Inr (cog0\<lparr>cog_bot := message_guild (cog_bot cog0) ''hello'' (channel ctxA)\<rparr>)
   \<and> invoke cog0 ctxB ''hi'' =
       Inr (cog0\<lparr>cog_bot := message_guild (cog_bot cog0)
                   ''this command is not available in this guild'' (channel ctxB)\<rparr>)"
proof -
  have h: "has_command (cog_bot cog0) ''hi''"
    by (simp add: instance_defs)
  have vA: "db_value (db cog0) (guild ctxA) ''hi'' = Some ''hello''"
    by (simp add: instance_defs db_value_def db_table_def)
  have vB: "db_value (db cog0) (guild ctxB) ''hi'' = None"
    by (simp add: instance_defs db_value_def db_table_def)
  show ?thesis
    using h invoke_registered [OF h, of ctxA] invoke_registered [OF h, of ctxB]
    by (simp add: vA vB)
qed

text \<open>
  C10: the handlers \<^verbatim>\<open>make_command(name, t)\<close> and \<^verbatim>\<open>make_command(name, t')\<close> behave
  alike when invoked: the captured text is never read. What an invocation sends is
  the store's content for (invoking guild, name) at that moment, or the fixed
  notice; this also holds through the dispatcher once the handler is installed.
\<close>

theorem captured_text_unused:
  "run_command self (make_command n t) ctx = run_command self (make_command n t') ctx
   \<and> sent (cog_bot (run_command self (make_command n t) ctx)) =
       sent (cog_bot self) @
         [(channel ctx,
           case db_value (db self) (guild ctx) n of
             None \<Rightarrow> ''this command is not available in this guild''
           | Some s \<Rightarrow> s)]
   \<and> invoke (self\<lparr>cog_bot := add_command (remove_command (cog_bot self) n) (make_command n t)\<rparr>) ctx n =
       Inr (self\<lparr>cog_bot := message_guild
                   (add_command (remove_command (cog_bot self) n) (make_command n t))
                   (case db_value (db self) (guild ctx) n of
                      None \<Rightarrow> ''this command is not available in this guild''
                    | Some s \<Rightarrow> s)
                   (channel ctx)\<rparr>)"
  by (simp add: run_command_def make_command_def cog_get_command_def message_guild_def
      invoke_def get_command_reinstalled [unfolded make_command_def]
      split: option.split)

theorem captured_text_unused_witness:
  "run_command cog0 (make_command ''x'' ''old'') ctxB =
     run_command cog0 (make_command ''x'' ''new'') ctxB
   \<and> sent (cog_bot (run_command cog0 (make_command ''x'' ''old'') ctxB)) = [(200, ''b'')]"
proof -
  have v: "db_value (db cog0) (guild ctxB) ''x'' = Some ''b''"
    by (simp add: instance_defs db_value_def db_table_def)
  have s: "sent (cog_bot cog0) = []"
    by (simp add: instance_defs)
  have c: "channel ctxB = 200"
    by (simp add: ctxB_def)
  show ?thesis
    using captured_text_unused [of cog0 "''x''" "''old''" ctxB "''new''"]
    by (auto simp add: v s c)
qed

text \<open>
  C7: for two distinct guilds A and B and a name x, after a permitted
  \<^verbatim>\<open>add(A, x, t1)\<close> and a permitted \<^verbatim>\<open>add(B, x, t2)\<close>, invoking x in A sends
  \<^verbatim>\<open>t1\<close> and invoking x in B sends \<^verbatim>\<open>t2\<close>, while the dispatcher holds a
  single handler for x (the one installed by the second add).
\<close>

theorem per_guild_content:
  assumes "has_permission self (author cA)"
    and "has_permission self (author cB)"
    and "guild cA \<noteq> guild cB"
  shows "invoke (add (add self cA x t1) cB x t2) cA x =
           Inr ((add (add self cA x t1) cB x t2)
                  \<lparr>cog_bot := message_guild (cog_bot (add (add self cA x t1) cB x t2))
                                t1 (channel cA)\<rparr>)
       \<and> invoke (add (add self cA x t1) cB x t2) cB x =
           Inr ((add (add self cA x t1) cB x t2)
                  \<lparr>cog_bot := message_guild (cog_bot (add (add self cA x t1) cB x t2))
                                t2 (channel cB)\<rparr>)
       \<and> filter (\<lambda>c. cmd_name c = x) (all_commands (cog_bot (add (add self cA x t1) cB x t2))) =
           [make_command x t2]"
proof -
  let ?s1 = "add self cA x t1"
  let ?s2 = "add ?s1 cB x t2"
  have pB: "has_permission ?s1 (author cB)"
    using assms(2) by simp
  have dbs: "db ?s2 = db_set (db_set (db self) (guild cA) x t1) (guild cB) x t2"
    using assms(1) pB by (simp add: add_permitted)
  have vA: "db_value (db ?s2) (guild cA) x = Some t1"
    using assms(3) by (simp add: dbs db_value_set_other db_value_set_same)
  have vB: "db_value (db ?s2) (guild cB) x = Some t2"
    by (simp add: dbs db_value_set_same)
  have cs: "all_commands (cog_bot ?s2) =
              filter (\<lambda>c. cmd_name c \<noteq> x) (all_commands (cog_bot ?s1)) @ [make_command x t2]"
    using pB by (rule all_commands_add)
  have one: "filter (\<lambda>c. cmd_name c = x) (all_commands (cog_bot ?s2)) = [make_command x t2]"
    by (simp add: cs filter_eq_after_neq) (simp add: make_command_def)
  have g: "get_command (cog_bot ?s2) x = Some (make_command x t2)"
    using pB by (simp add: add_permitted get_command_reinstalled)
  have nm: "cmd_name (make_command x t2) = x"
    by (simp add: make_command_def)
  have iA: "invoke ?s2 cA x =
              Inr (?s2\<lparr>cog_bot := message_guild (cog_bot ?s2) t1 (channel cA)\<rparr>)"
    by (simp add: invoke_def g run_command_def nm cog_get_command_def vA)
  have iB: "invoke ?s2 cB x =
              Inr (?s2\<lparr>cog_bot := message_guild (cog_bot ?s2) t2 (channel cB)\<rparr>)"
    by (simp add: invoke_def g run_command_def nm cog_get_command_def vB)
  show ?thesis
    using iA iB one by simp
qed

theorem per_guild_content_witness:
  "has_permission cog0 (author ctxA) \<and> has_permission cog0 (author ctxB)
   \<and> guild ctxA \<noteq> guild ctxB
   \<and> invoke (add (add cog0 ctxA ''y'' ''t1'') ctxB ''y'' ''t2'') ctxA ''y'' =
       Inr ((add (add cog0 ctxA ''y'' ''t1'') ctxB ''y'' ''t2'')
              \<lparr>cog_bot := message_guild (cog_bot (add (add cog0 ctxA ''y'' ''t1'') ctxB ''y'' ''t2''))
                            ''t1'' (channel ctxA)\<rparr>)
   \<and> invoke (add (add cog0 ctxA ''y'' ''t1'') ctxB ''y'' ''t2'') ctxB ''y'' =
       Inr ((add (add cog0 ctxA ''y'' ''t1'') ctxB ''y'' ''t2'')
              \<lparr>cog_bot := message_guild (cog_bot (add (add cog0 ctxA ''y'' ''t1'') ctxB ''y'' ''t2''))
                            ''t2'' (channel ctxB)\<rparr>)"
proof -
  have a: "has_permission cog0 (author ctxA)"
    by (simp add: has_permission_def is_admin_def ctxA_def admin_def)
  have b: "has_permission cog0 (author ctxB)"
    by (simp add: has_permission_def is_admin_def ctxB_def admin_def)
  have g: "guild ctxA \<noteq> guild ctxB"
    by (simp add: ctxA_def ctxB_def)
  show ?thesis
    using a b g per_guild_content [OF a b g, of "''y''" "''t1''" "''t2''"] by simp
qed

subsection \<open>Permission\<close>

text \<open>
  C5: \<^verbatim>\<open>has_permission(actor)\<close> is true exactly when the flag
  \<^verbatim>\<open>everyone_permission\<close> is set, or the actor holds the guild-admin role, or the
  actor is a configured administrator of the bot. It is a function from the cog and
  the member to a truth value: it returns no new state.
\<close>

theorem has_permission_iff:
  "has_permission self m =
     (everyone_permission self \<or> is_admin m \<or> is_bot_admin (cog_bot self) m)"
  by (simp add: has_permission_def)

theorem has_permission_iff_witness:
  "has_permission cog0 admin \<and> \<not> has_permission cog0 guest
   \<and> has_permission cog0 (guest\<lparr>member_id := 7\<rparr>)
   \<and> has_permission (cog0\<lparr>everyone_permission := True\<rparr>) guest"
  using has_permission_iff [of cog0 admin] has_permission_iff [of cog0 guest]
    has_permission_iff [of cog0 "guest\<lparr>member_id := 7\<rparr>"]
    has_permission_iff [of "cog0\<lparr>everyone_permission := True\<rparr>" guest]
  by (simp add: is_admin_def is_bot_admin_def admin_def guest_def cog0_def init_def bot0_def)

text \<open>
  C6: the flags \<^verbatim>\<open>guild_admin_permission\<close> and \<^verbatim>\<open>bot_admin_permission\<close> never
  influence the decision: two cogs constructed with the same bot, store and
  \<^verbatim>\<open>everyone_permission\<close> but any values of the two flags agree on every actor, and
  so does a cog whose two flags are overwritten.
\<close>

theorem admin_flags_ignored:
  "has_permission (init b d ga ba ev) m = has_permission (init b d ga' ba' ev) m
   \<and> has_permission (self\<lparr>guild_admin_permission := ga, bot_admin_permission := ba\<rparr>) m =
       has_permission self m"
  by (simp add: has_permission_def is_bot_admin_def init_def)

theorem admin_flags_ignored_witness:
  "has_permission (init bot0 db0 True True False) admin =
     has_permission (init bot0 db0 False False False) admin
   \<and> has_permission (init bot0 db0 False False False) admin"
  using admin_flags_ignored [of bot0 db0 True True False admin False False cog0]
  by (simp add: has_permission_def is_admin_def admin_def init_def)

text \<open>
  C3: for an actor without permission, \<^verbatim>\<open>add\<close> and \<^verbatim>\<open>remove\<close> each send exactly
  one notice, which starts with the actor's mention, and change nothing else: the
  store and the dispatcher's command table are as before.
\<close>

theorem denied_no_change:
  assumes "\<not> has_permission self (author ctx)"
  shows "add self ctx n t =
           self\<lparr>cog_bot := (cog_bot self)\<lparr>sent := sent (cog_bot self) @
             [(channel ctx,
               mention (author ctx) @ '', you do not have permission to add a command'')]\<rparr>\<rparr>
       \<and> remove self ctx n =
           self\<lparr>cog_bot := (cog_bot self)\<lparr>sent := sent (cog_bot self) @
             [(channel ctx,
               mention (author ctx) @ '', you do not have permission to remove a command'')]\<rparr>\<rparr>
       \<and> db (add self ctx n t) = db self
       \<and> all_commands (cog_bot (add self ctx n t)) = all_commands (cog_bot self)
       \<and> db (remove self ctx n) = db self
       \<and> all_commands (cog_bot (remove self ctx n)) = all_commands (cog_bot self)"
  using assms by (simp add: add_def remove_def message_guild_def)

theorem denied_no_change_witness:
  "\<not> has_permission cog0 (author ctxG)
   \<and> db (add cog0 ctxG ''x'' ''evil'') = db cog0
   \<and> all_commands (cog_bot (add cog0 ctxG ''x'' ''evil'')) = all_commands (cog_bot cog0)
   \<and> db (remove cog0 ctxG ''x'') = db cog0
   \<and> all_commands (cog_bot (remove cog0 ctxG ''x'')) = all_commands (cog_bot cog0)"
proof -
  have h: "\<not> has_permission cog0 (author ctxG)"
    by (simp add: has_permission_def is_admin_def is_bot_admin_def instance_defs)
  show ?thesis
    using h denied_no_change [OF h, of "''x''" "''evil''"] by simp
qed

subsection \<open>Startup\<close>

text \<open>
  C4: initialization installs one handler for each distinct stored command name
  that has no handler in the dispatcher yet, and none for a stored name that
  already has one, whichever guild's entry comes first or later. So the
  dispatcher afterwards holds the handlers it held before plus one per missing
  stored name, its names are the old names together with the stored names, and
  no name gets a second handler. For a store with N distinct names, exactly N
  handlers are installed when none of the stored names had a handler before
  (for instance when the dispatcher was empty).
\<close>

theorem startup_handlers:
  "length (all_commands (cog_bot (init b d ga ba ev))) =
     length (all_commands b) + card (stored_names d - cmd_name ` set (all_commands b))
   \<and> cmd_name ` set (all_commands (cog_bot (init b d ga ba ev))) =
       cmd_name ` set (all_commands b) \<union> stored_names d
   \<and> (distinct (map cmd_name (all_commands b)) \<longrightarrow>
        distinct (map cmd_name (all_commands (cog_bot (init b d ga ba ev)))))
   \<and> (stored_names d \<inter> cmd_name ` set (all_commands b) = {} \<longrightarrow>
        length (all_commands (cog_bot (init b d ga ba ev))) =
          length (all_commands b) + card (stored_names d))"
proof -
  let ?cs = "all_commands (register_tables b (map snd (db_tables d)))"
  have st: "(\<Union>table \<in> set (map snd (db_tables d)). fst ` set table) = stored_names d"
    by (simp add: stored_names_def)
  have l: "length ?cs =
             length (all_commands b) + card (stored_names d - cmd_name ` set (all_commands b))"
    by (simp only: length_register_tables st)
  have s: "cmd_name ` set ?cs = cmd_name ` set (all_commands b) \<union> stored_names d"
    by (simp only: names_register_tables st)
  have dn: "distinct (map cmd_name (all_commands b)) \<longrightarrow> distinct (map cmd_name ?cs)"
    by (simp add: distinct_register_tables)
  have l0: "stored_names d \<inter> cmd_name ` set (all_commands b) = {} \<longrightarrow>
              length ?cs = length (all_commands b) + card (stored_names d)"
  proof (rule impI)
    assume "stored_names d \<inter> cmd_name ` set (all_commands b) = {}"
    then have "stored_names d - cmd_name ` set (all_commands b) = stored_names d"
      by (rule Diff_triv)
    with l show "length ?cs = length (all_commands b) + card (stored_names d)"
      by (simp only:)
  qed
  have sel: "cog_bot (init b d ga ba ev) = register_tables b (map snd (db_tables d))"
    by (simp add: init_def)
  show ?thesis
    unfolding sel by (intro conjI) (rule l, rule s, rule dn, rule l0)
qed

text \<open>
  Read as "exactly N handlers, whatever the dispatcher held", the statement fails:
  with \<^verbatim>\<open>help\<close> and \<^verbatim>\<open>x\<close> registered beforehand and the two stored names
  \<^verbatim>\<open>hi\<close> and \<^verbatim>\<open>x\<close>, three handlers exist afterwards and one was installed.
\<close>

theorem startup_handlers_counterexample:
  "card (stored_names db0) = 2
   \<and> length (all_commands (cog_bot (init bot1 db0 True True False))) \<noteq> card (stored_names db0)
   \<and> length (all_commands (cog_bot (init bot1 db0 True True False))) - length (all_commands bot1)
       \<noteq> card (stored_names db0)"
proof -
  have n: "stored_names db0 = {''hi'', ''x''}"
    by (auto simp add: stored_names_def db_tables_def db0_def)
  have c: "card (stored_names db0) = 2"
    by (simp add: n)
  have l: "length (all_commands (cog_bot (init bot1 db0 True True False))) = 3"
    by (simp add: instance_defs bot1_def)
  have l1: "length (all_commands bot1) = 2"
    by (simp add: bot1_def)
  show ?thesis
    by (simp add: c l l1)
qed

theorem startup_handlers_witness:
  "distinct (map cmd_name (all_commands bot0))
   \<and> stored_names db0 \<inter> cmd_name ` set (all_commands bot0) = {}
   \<and> length (all_commands (cog_bot (init bot0 db0 True True False))) = 2
   \<and> distinct (map cmd_name (all_commands (cog_bot (init bot0 db0 True True False))))
   \<and> length (all_commands (cog_bot (init bot1 db0 True True False))) = 3"
proof -
  have n: "stored_names db0 = {''hi'', ''x''}"
    by (auto simp add: stored_names_def db_tables_def db0_def)
  have b1: "cmd_name ` set (all_commands bot1) = {''help'', ''x''}"
    by (simp add: bot1_def make_command_def bot0_def)
  have d1: "stored_names db0 - cmd_name ` set (all_commands bot1) = {''hi''}"
    unfolding n b1 by auto
  have l1: "length (all_commands bot1) = 2"
    by (simp add: bot1_def)
  have b0: "all_commands bot0 = []"
    by (simp add: bot0_def)
  have dist0: "distinct (map cmd_name (all_commands bot0))"
    unfolding b0 by simp
  have disj0: "stored_names db0 \<inter> cmd_name ` set (all_commands bot0) = {}"
    unfolding b0 by simp
  note t1 = startup_handlers [of bot1 db0 True True False]
  note t0 = startup_handlers [of bot0 db0 True True False]
  have r1: "length (all_commands (cog_bot (init bot1 db0 True True False))) = 3"
    using t1 [THEN conjunct1] unfolding d1 l1 by simp
  have "length (all_commands (cog_bot (init bot0 db0 True True False))) =
          length (all_commands bot0) + card (stored_names db0)"
    using t0 [THEN conjunct2, THEN conjunct2, THEN conjunct2] disj0 by (rule mp)
  then have r0: "length (all_commands (cog_bot (init bot0 db0 True True False))) = 2"
    by (simp add: b0 n)
  have r2: "distinct (map cmd_name (all_commands (cog_bot (init bot0 db0 True True False))))"
    using t0 [THEN conjunct2, THEN conjunct2, THEN conjunct1] dist0 by (rule mp)
  show ?thesis
    using dist0 disj0 r0 r2 r1 by (intro conjI)
qed

subsection \<open>Removing\<close>

text \<open>
  C8: a permitted \<^verbatim>\<open>remove(A, x)\<close> clears the entry (A, x) of the store and no
  other: every entry of another guild or another name reads as before, and the
  guilds of the store are the same. The handler for x leaves the dispatcher
  for all guilds: afterwards invoking x fails in every guild.
\<close>

theorem remove_frame:
  assumes "has_permission self (author ctx)"
  shows "db_value (db (remove self ctx x)) (guild ctx) x = None
       \<and> (\<forall>g n. g \<noteq> guild ctx \<or> n \<noteq> x \<longrightarrow>
             db_value (db (remove self ctx x)) g n = db_value (db self) g n)
       \<and> map fst (db_tables (db (remove self ctx x))) = map fst (db_tables (db self))
       \<and> all_commands (cog_bot (remove self ctx x)) =
           filter (\<lambda>c. cmd_name c \<noteq> x) (all_commands (cog_bot self))
       \<and> invoke (remove self ctx x) ctx' x = Inl (CommandNotFound x)"
proof -
  let ?s = "remove self ctx x"
  have d: "db ?s = db_clear (db self) (guild ctx) x"
    using assms by (simp add: remove_permitted)
  have b: "all_commands (cog_bot ?s) = filter (\<lambda>c. cmd_name c \<noteq> x) (all_commands (cog_bot self))"
    using assms by (simp add: remove_permitted message_guild_def remove_command_def)
  have g: "get_command (cog_bot ?s) x = None"
    by (simp add: get_command_def b find_filter_neq)
  have c1: "db_value (db ?s) (guild ctx) x = None"
    by (simp add: d db_value_clear_same)
  have c2: "\<forall>g n. g \<noteq> guild ctx \<or> n \<noteq> x \<longrightarrow> db_value (db ?s) g n = db_value (db self) g n"
    by (simp add: d db_value_clear_other)
  have c3: "map fst (db_tables (db ?s)) = map fst (db_tables (db self))"
    by (simp add: d db_tables_def db_clear_keys)
  have c5: "invoke ?s ctx' x = Inl (CommandNotFound x)"
    by (simp add: invoke_def g)
  show ?thesis
    using c1 c2 c3 b c5 by blast
qed

theorem remove_frame_witness:
  "has_permission cog0 (author ctxA)
   \<and> db_value (db (remove cog0 ctxA ''x'')) (guild ctxA) ''x'' = None
   \<and> db_value (db (remove cog0 ctxA ''x'')) (guild ctxB) ''x'' = Some ''b''
   \<and> invoke (remove cog0 ctxA ''x'') ctxB ''x'' = Inl (CommandNotFound ''x'')"
proof -
  have h: "has_permission cog0 (author ctxA)"
    by (simp add: has_permission_def is_admin_def ctxA_def admin_def)
  have g: "guild ctxB \<noteq> guild ctxA"
    by (simp add: ctxA_def ctxB_def)
  have v: "db_value (db cog0) (guild ctxB) ''x'' = Some ''b''"
    by (simp add: instance_defs db_value_def db_table_def)
  show ?thesis
    using h g v remove_frame [OF h, of "''x''" ctxB] by simp
qed

text \<open>
  C9: a permitted \<^verbatim>\<open>remove\<close> always returns and sends the notice
  \<^verbatim>\<open>removed command <prefix><name>\<close>; it makes no existence check. When the name
  is neither in the guild's table nor in the dispatcher, the notice is the only
  change.
\<close>

theorem remove_absent:
  assumes "has_permission self (author ctx)"
  shows "sent (cog_bot (remove self ctx n)) =
           sent (cog_bot self) @
             [(channel ctx, ''removed command '' @ command_prefix (cog_bot self) @ n)]
       \<and> (db_value (db self) (guild ctx) n = None \<and> \<not> has_command (cog_bot self) n \<longrightarrow>
            remove self ctx n =
              self\<lparr>cog_bot := message_guild (cog_bot self)
                     (''removed command '' @ command_prefix (cog_bot self) @ n) (channel ctx)\<rparr>)"
proof -
  have a: "sent (cog_bot (remove self ctx n)) =
           sent (cog_bot self) @
             [(channel ctx, ''removed command '' @ command_prefix (cog_bot self) @ n)]"
    using assms by (simp add: remove_permitted message_guild_def remove_command_def)
  have b: "remove self ctx n =
              self\<lparr>cog_bot := message_guild (cog_bot self)
                     (''removed command '' @ command_prefix (cog_bot self) @ n) (channel ctx)\<rparr>"
    if v: "db_value (db self) (guild ctx) n = None" and h: "\<not> has_command (cog_bot self) n"
  proof -
    have r: "remove_command (cog_bot self) n = cog_bot self"
      using h by (simp add: remove_command_def has_command_def filter_neq_absent)
    show ?thesis
      using assms by (simp add: remove_permitted r db_clear_absent [OF v])
  qed
  show ?thesis
    using a b by blast
qed

theorem remove_absent_witness:
  "has_permission cog0 (author ctxA)
   \<and> db_value (db cog0) (guild ctxA) ''nope'' = None
   \<and> \<not> has_command (cog_bot cog0) ''nope''
   \<and> remove cog0 ctxA ''nope'' =
       cog0\<lparr>cog_bot := message_guild (cog_bot cog0) ''removed command ?nope'' (channel ctxA)\<rparr>"
proof -
  have h: "has_permission cog0 (author ctxA)"
    by (simp add: has_permission_def is_admin_def ctxA_def admin_def)
  have v: "db_value (db cog0) (guild ctxA) ''nope'' = None"
    by (simp add: instance_defs db_value_def db_table_def)
  have c: "\<not> has_command (cog_bot cog0) ''nope''"
    by (simp add: instance_defs)
  have p: "command_prefix (cog_bot cog0) = ''?''"
    by (simp add: instance_defs)
  show ?thesis
    using h v c remove_absent [OF h, of "''nope''"] by (simp add: p)
qed

end
